theory Spec2Isabelle
  imports Main "HOL-Library.Sublist"
begin

section \<open>Python strings\<close>

text \<open>
  A Python \<open>str\<close> is modelled as a \<open>string\<close>, one \<open>char\<close> per character. The model
  is exact on ASCII text (code points below 128): there \<open>str.upper\<close> and \<open>str.lower\<close>
  change the 26 letters only and keep the length, and \<open>str.strip()\<close> removes the
  characters 9 to 13, 28 to 31 and 32, which are the ASCII characters Python's
  \<open>str.isspace\<close> accepts. Other characters are left alone by the case mappings here.
\<close>

definition upper_char :: "char \<Rightarrow> char" where
  "upper_char c =
     (let n = (of_char c :: nat) in if 97 \<le> n \<and> n \<le> 122 then char_of (n - 32) else c)"

definition lower_char :: "char \<Rightarrow> char" where
  "lower_char c =
     (let n = (of_char c :: nat) in if 65 \<le> n \<and> n \<le> 90 then char_of (n + 32) else c)"

definition upper :: "string \<Rightarrow> string" where
  "upper s = map upper_char s"

definition lower :: "string \<Rightarrow> string" where
  "lower s = map lower_char s"

definition isspace :: "char \<Rightarrow> bool" where
  "isspace c = (let n = (of_char c :: nat) in (9 \<le> n \<and> n \<le> 13) \<or> (28 \<le> n \<and> n \<le> 32))"

definition strip :: "string \<Rightarrow> string" where
  "strip s = rev (dropWhile isspace (rev (dropWhile isspace s)))"

text \<open>\<open>s.startswith(p)\<close>.\<close>

fun startswith :: "string \<Rightarrow> string \<Rightarrow> bool" where
  "startswith s [] = True"
| "startswith [] (p # ps) = False"
| "startswith (c # cs) (p # ps) = (c = p \<and> startswith cs ps)"

text \<open>\<open>needle in hay\<close> on strings: \<open>needle\<close> occurs as a contiguous piece of \<open>hay\<close>.\<close>

fun contains :: "string \<Rightarrow> string \<Rightarrow> bool" where
  "contains needle [] = (needle = [])"
| "contains needle (c # cs) = (startswith (c # cs) needle \<or> contains needle cs)"

text \<open>\<open>any(word in t for word in words)\<close>.\<close>

definition any_in :: "string list \<Rightarrow> string \<Rightarrow> bool" where
  "any_in words t = list_ex (\<lambda>word. contains word t) words"

text \<open>\<open>text.split('\n')\<close>: never empty, the empty text gives one empty line.\<close>

fun split_nl :: "string \<Rightarrow> string list" where
  "split_nl [] = [[]]"
| "split_nl (c # cs) =
     (if c = CHR 0x0A then [] # split_nl cs
      else (case split_nl cs of [] \<Rightarrow> [[c]] | l # ls \<Rightarrow> (c # l) # ls))"

section \<open>JSON values and text cleaning\<close>

text \<open>
  A value read from a metadata file is a string or some other JSON value (null, a
  number, a boolean, an array, an object). The program looks at such a value in three
  ways only: its truth value (\<open>not v\<close>), its rendering by \<open>str(v)\<close>, and its equality with
  a string literal, which is false for every value that is not a string. \<open>NonStr b r\<close>
  is a value that is not a string, with truth value \<open>b\<close> and rendering \<open>r\<close>; JSON
  \<open>null\<close> is \<open>NonStr False ''None''\<close>.
\<close>

datatype pyval = Str string | NonStr bool string

fun truthy :: "pyval \<Rightarrow> bool" where
  "truthy (Str s) = (s \<noteq> [])"
| "truthy (NonStr b r) = b"

fun py_str :: "pyval \<Rightarrow> string" where
  "py_str (Str s) = s"
| "py_str (NonStr b r) = r"

text \<open>The character class \<open>[A-Za-z0-9_-]\<close> of the regular expression in \<open>clean_text\<close>.\<close>

definition keep_char :: "char \<Rightarrow> bool" where
  "keep_char c =
     (let n = (of_char c :: nat) in
        (65 \<le> n \<and> n \<le> 90) \<or> (97 \<le> n \<and> n \<le> 122) \<or> (48 \<le> n \<and> n \<le> 57)
        \<or> c = CHR ''_'' \<or> c = CHR ''-'')"

text \<open>\<open>value.replace(' ', '_')\<close>.\<close>

definition replace_spaces :: "string \<Rightarrow> string" where
  "replace_spaces s = map (\<lambda>c. if c = CHR '' '' then CHR ''_'' else c) s"

text \<open>
  \<open>clean_text\<close> is defined twice in the repository, in \<open>organize_pdfs.py\<close> and in
  \<open>create_metadata.py\<close>, with the same body.
\<close>

definition clean_text :: "pyval \<Rightarrow> string" where
  "clean_text v =
     (if \<not> truthy v then ''Unknown''
      else (let v1 = strip (py_str v);
                v2 = replace_spaces v1;
                v3 = filter keep_char v2
            in if v3 = [] then ''Unknown'' else v3))"

type_synonym metadata = "string \<rightharpoonup> pyval"

text \<open>\<open>metadata.get(key, default)\<close>.\<close>

definition get_default :: "metadata \<Rightarrow> string \<Rightarrow> pyval \<Rightarrow> pyval" where
  "get_default m k d = (case m k of None \<Rightarrow> d | Some v \<Rightarrow> v)"

text \<open>\<open>build_filename\<close> of \<open>organize_pdfs.py\<close>.\<close>

definition build_filename :: "metadata \<Rightarrow> string" where
  "build_filename m =
     (let country = clean_text (get_default m ''country'' (Str ''Unknown''));
          insurer = clean_text (get_default m ''insurer'' (Str ''Unknown''));
          line = clean_text (get_default m ''insurance_line'' (Str ''Unknown''));
          product = clean_text (get_default m ''product_name'' (Str ''Unknown''))
      in country @ ''_'' @ insurer @ ''_'' @ line @ ''_'' @ product @ ''.pdf'')"

section \<open>The classifier: \<open>create_metadata.py\<close>\<close>

definition KNOWN_INSURERS :: "string list" where
  "KNOWN_INSURERS =
     [''AMI'', ''AA Insurance'', ''State Insurance'', ''Tower'', ''AIA'', ''Southern Cross'',
      ''Vero'', ''FMG'', ''NZI'', ''NRMA'', ''Suncorp'', ''AXA'', ''Aviva'', ''Direct Line'',
      ''Bupa'', ''QBE'', ''Argis'', ''BIA'', ''Castle'', ''Allianz'', ''IAG'']"

text \<open>The loop of \<open>detect_insurer\<close> over the dictionary, on the upper-cased first section.\<close>

fun insurer_loop :: "string list \<Rightarrow> string \<Rightarrow> string" where
  "insurer_loop [] first_section = ''Unknown''"
| "insurer_loop (insurer # rest) first_section =
     (if contains (upper insurer) first_section then insurer
      else insurer_loop rest first_section)"

definition detect_insurer :: "string \<Rightarrow> string" where
  "detect_insurer text = insurer_loop KNOWN_INSURERS (upper (take 2000 text))"

definition detect_line :: "string \<Rightarrow> string" where
  "detect_line text =
     (let t = lower text in
      if any_in [''professional indemnity'', ''pi insurance'', ''professional liability'',
                 ''accountants liability''] t
      then ''Professional Indemnity''
      else if any_in [''farm insurance'', ''agricultural'', ''farming'', ''rural property''] t
      then ''Farm''
      else if any_in [''landlord'', ''rental property'', ''investment property'',
                      ''residential landlord''] t
      then ''Landlord''
      else if any_in [''construction'', ''builders indemnity'', ''contract works'',
                      ''building project''] t
      then ''Construction''
      else if any_in [''car insurance'', ''motor'', ''vehicle insurance'', ''auto insurance''] t
      then ''Motor''
      else if any_in [''life insurance'', ''life cover'', ''life protection''] t
      then ''Life''
      else if any_in [''health insurance'', ''medical insurance'', ''health cover''] t
      then ''Health''
      else if any_in [''home insurance'', ''contents insurance'', ''house insurance'',
                      ''home & contents''] t
      then ''Home & Contents''
      else if any_in [''travel insurance'', ''trip insurance'', ''travel cover''] t
      then ''Travel''
      else ''Unknown'')"

text \<open>The loop of \<open>detect_product_name\<close> over the lines it was given.\<close>

fun product_loop :: "string list \<Rightarrow> string" where
  "product_loop [] = ''General Policy''"
| "product_loop (line # rest) =
     (if 10 < length (strip line) \<and> length (strip line) < 100
         \<and> \<not> startswith (strip line) ''www''
         \<and> any_in [''policy'', ''insurance'', ''wording'', ''cover''] (lower (strip line))
      then strip line
      else product_loop rest)"

definition detect_product_name :: "string \<Rightarrow> string" where
  "detect_product_name text = product_loop (take 30 (split_nl text))"

definition detect_country :: "string \<Rightarrow> string" where
  "detect_country text =
     (let t = lower text in
      if any_in [''new zealand'', ''nz '', '' nz'', ''auckland'', ''wellington''] t
      then ''New Zealand''
      else if any_in [''australia'', '' au '', ''sydney'', ''melbourne''] t
      then ''Australia''
      else if any_in [''united kingdom'', ''uk '', '' uk'', ''england'', ''scotland''] t
      then ''United Kingdom''
      else ''Unknown'')"

datatype py_error = KeyError | AttributeError | TypeError | OSError

text \<open>\<open>meta[key]\<close>, which raises \<open>KeyError\<close> on a missing key.\<close>

definition subscript :: "metadata \<Rightarrow> string \<Rightarrow> py_error + pyval" where
  "subscript m k = (case m k of None \<Rightarrow> Inl KeyError | Some v \<Rightarrow> Inr v)"

text \<open>\<open>build_filename\<close> of \<open>create_metadata.py\<close>, which reads the fields by subscript.\<close>

definition cm_build_filename :: "metadata \<Rightarrow> py_error + string" where
  "cm_build_filename meta =
     (case subscript meta ''country'' of Inl e \<Rightarrow> Inl e | Inr c \<Rightarrow>
     (case subscript meta ''insurer'' of Inl e \<Rightarrow> Inl e | Inr i \<Rightarrow>
     (case subscript meta ''insurance_line'' of Inl e \<Rightarrow> Inl e | Inr l \<Rightarrow>
     (case subscript meta ''product_name'' of Inl e \<Rightarrow> Inl e | Inr p \<Rightarrow>
        Inr (clean_text c @ ''_'' @ clean_text i @ ''_'' @ clean_text l @ ''_''
             @ clean_text p @ ''.pdf'')))))"




text \<open>
  Lines 201 to 236 of the loop body: the record built for one file from its text.
  \<open>today\<close> is the date read when the script starts, \<open>created\<close> the date read when the
  record is built.
\<close>

definition classify :: "string \<Rightarrow> string \<Rightarrow> string \<Rightarrow> string \<Rightarrow> py_error + metadata" where
  "classify today created filename mock_text =
     (let country = detect_country mock_text;
          insurer = detect_insurer mock_text;
          line = detect_line mock_text;
          product = detect_product_name mock_text;
          document_type = (if contains ''Wording'' product then ''Policy Wording''
                           else ''Policy Document'');
          is_high_confidence =
            (country \<noteq> ''Unknown'' \<and> insurer \<noteq> ''Unknown'' \<and> line \<noteq> ''Unknown'');
          confidence = (if is_high_confidence then ''High'' else ''Medium'')
      in case cm_build_filename
                [''country'' \<mapsto> Str country, ''insurer'' \<mapsto> Str insurer,
                 ''insurance_line'' \<mapsto> Str line, ''product_name'' \<mapsto> Str product] of
           Inl e \<Rightarrow> Inl e
         | Inr generated_filename \<Rightarrow>
             Inr [''original_filename'' \<mapsto> Str filename,
                  ''generated_filename'' \<mapsto> Str generated_filename,
                  ''country'' \<mapsto> Str country,
                  ''insurer'' \<mapsto> Str insurer,
                  ''insurance_line'' \<mapsto> Str line,
                  ''product_name'' \<mapsto> Str product,
                  ''document_type'' \<mapsto> Str document_type,
                  ''source_url'' \<mapsto> Str ''local_upload'',
                  ''download_date'' \<mapsto> Str today,
                  ''confidence'' \<mapsto> Str confidence,
                  ''status'' \<mapsto> Str ''needs_review'',
                  ''created_at'' \<mapsto> Str created])"

section \<open>Files, folders and persisted records\<close>

text \<open>
  \<open>os.path.join\<close> of two components, as \<open>posixpath\<close> defines it: an absolute second
  component replaces the first.
\<close>

definition os_path_join :: "string \<Rightarrow> string \<Rightarrow> string" where
  "os_path_join a b =
     (if startswith b ''/'' then b
      else if a = [] \<or> last a = CHR ''/'' then a @ b
      else a @ ''/'' @ b)"

text \<open>\<open>s.endswith(p)\<close>.\<close>

definition endswith :: "string \<Rightarrow> string \<Rightarrow> bool" where
  "endswith s p = startswith (rev s) (rev p)"


text \<open>
  What a file of the metadata folder holds when the organizer opens it: something
  \<open>open\<close> or \<open>json.load\<close> raises on, a JSON document that is not an object, or a
  record.
\<close>

datatype meta_file = Unreadable | NonObject | Object metadata

text \<open>
  The part of the file system the two scripts touch. \<open>files\<close> maps the path of a
  regular file to its content, \<open>dirs\<close> is the set of directories, and \<open>meta\<close> maps a
  name inside the metadata folder to what the file of that name holds. Paths are
  compared as strings. The entries of \<open>files\<close> are regular files and no directory sits
  at the path of a destination file.
\<close>

record world =
  files :: "string \<rightharpoonup> nat"
  dirs :: "string set"
  meta :: "string \<rightharpoonup> meta_file"

definition raw_docs_folder :: string where
  "raw_docs_folder = ''raw_documents''"

definition policies_folder :: string where
  "policies_folder = ''policies''"

text \<open>The path itself and every prefix of it that ends before a separator.\<close>

definition ancestors :: "string \<Rightarrow> string list" where
  "ancestors path =
     path # map (\<lambda>i. take i path) (filter (\<lambda>i. 0 < i \<and> path ! i = CHR ''/'') [0..<length path])"

text \<open>\<open>os.makedirs(path, exist_ok=True)\<close>, when it succeeds.\<close>

definition makedirs :: "string \<Rightarrow> world \<Rightarrow> world" where
  "makedirs path w = w\<lparr>dirs := dirs w \<union> set (ancestors path)\<rparr>"

section \<open>The organizer: \<open>organize_pdfs.py\<close>\<close>

definition required_fields :: "string list" where
  "required_fields = [''country'', ''insurer'', ''insurance_line'', ''product_name'']"

text \<open>
  The loop over \<open>required_fields\<close>: the first field whose value is the string
  \<open>"Unknown"\<close>, if there is one.
\<close>

fun unknown_loop :: "metadata \<Rightarrow> string list \<Rightarrow> string option" where
  "unknown_loop m [] = None"
| "unknown_loop m (field # rest) =
     (if m field = Some (Str ''Unknown'') then Some field else unknown_loop m rest)"

text \<open>Lines 101 to 112; the default of each \<open>get\<close> is the empty string.\<close>

definition folder_path :: "metadata \<Rightarrow> string" where
  "folder_path m =
     (let country = clean_text (get_default m ''country'' (Str []));
          insurer = clean_text (get_default m ''insurer'' (Str []));
          insurance_line = clean_text (get_default m ''insurance_line'' (Str []));
          product_name = clean_text (get_default m ''product_name'' (Str []))
      in os_path_join (os_path_join (os_path_join (os_path_join policies_folder country)
           insurer) insurance_line) product_name)"

definition src_filepath :: "string \<Rightarrow> string" where
  "src_filepath original_filename = os_path_join raw_docs_folder original_filename"

definition dst_filepath :: "metadata \<Rightarrow> string" where
  "dst_filepath m = os_path_join (folder_path m) (build_filename m)"

text \<open>
  The operation of the loop body that the environment makes fail while one record is
  processed, if any: \<open>os.makedirs\<close>, \<open>shutil.move\<close>, the \<open>open\<close> of the metadata file
  for writing, or \<open>json.dump\<close> into the file opened (and so truncated).
\<close>

datatype io_fault = NoFault | MkdirFails | MoveFails | OpenFails | DumpFails

text \<open>
  What the loop body does with one entry of the metadata folder. \<open>NotJson\<close> is the
  silent \<open>continue\<close> of line 60; \<open>Crashed\<close> is an exception outside every \<open>try\<close>,
  which ends the script.
\<close>

datatype outcome =
    NotJson
  | ReadError
  | MissingFilename
  | SkippedStatus pyval
  | SkippedUnknown string
  | MkdirError
  | SourceMissing
  | OrganizeError
  | Organized string
  | Crashed py_error

text \<open>
  Lines 59 to 156, for the entry \<open>filename\<close>; \<open>now\<close> is what \<open>datetime.now().isoformat()\<close>
  returns.
\<close>

definition organize_one :: "string \<Rightarrow> io_fault \<Rightarrow> string \<Rightarrow> world \<Rightarrow> outcome \<times> world" where
  "organize_one now fault filename w =
     (if \<not> endswith (lower filename) ''.json'' then (NotJson, w)
      else case meta w filename of
        None \<Rightarrow> (ReadError, w)
      | Some Unreadable \<Rightarrow> (ReadError, w)
      | Some NonObject \<Rightarrow> (Crashed AttributeError, w)
      | Some (Object metadata) \<Rightarrow>
          (case metadata ''original_filename'' of
             None \<Rightarrow> (MissingFilename, w)
           | Some original_filename \<Rightarrow>
               if \<not> truthy original_filename then (MissingFilename, w)
               else let status = get_default metadata ''status'' (Str ''unknown'') in
               if status \<noteq> Str ''classified'' then (SkippedStatus status, w)
               else (case unknown_loop metadata required_fields of
                  Some field \<Rightarrow> (SkippedUnknown field, w)
                | None \<Rightarrow>
                    if fault = MkdirFails then (MkdirError, w)
                    else let w1 = makedirs (folder_path metadata) w;
                             generated_filename = build_filename metadata in
                    (case original_filename of
                       NonStr b r \<Rightarrow> (Crashed TypeError, w1)
                     | Str name \<Rightarrow>
                         (case files w1 (src_filepath name) of
                            None \<Rightarrow> (SourceMissing, w1)
                          | Some content \<Rightarrow>
                              if fault = MoveFails then (OrganizeError, w1)
                              else let w2 = w1\<lparr>files := ((files w1)(src_filepath name := None))
                                                  (dst_filepath metadata \<mapsto> content)\<rparr>;
                                       metadata' = metadata
                                         (''generated_filename'' \<mapsto> Str generated_filename,
                                          ''status'' \<mapsto> Str ''organized'',
                                          ''organized_date'' \<mapsto> Str now) in
                              if fault = OpenFails then (OrganizeError, w2)
                              else if fault = DumpFails
                              then (OrganizeError, w2\<lparr>meta := (meta w2)(filename \<mapsto> Unreadable)\<rparr>)
                              else (Organized generated_filename,
                                    w2\<lparr>meta := (meta w2)(filename \<mapsto> Object metadata')\<rparr>))))))"

text \<open>
  The loop over the listing of the metadata folder. \<open>clock\<close> gives the time read while
  an entry is processed and \<open>faults\<close> the operation that fails there.
\<close>

fun organize_all ::
  "(string \<Rightarrow> string) \<Rightarrow> (string \<Rightarrow> io_fault) \<Rightarrow> string list \<Rightarrow> world \<Rightarrow> outcome list \<times> world"
where
  "organize_all clock faults [] w = ([], w)"
| "organize_all clock faults (filename # rest) w =
     (case organize_one (clock filename) (faults filename) filename w of
        (Crashed e, w') \<Rightarrow> ([Crashed e], w')
      | (r, w') \<Rightarrow>
          (case organize_all clock faults rest w' of (rs, w'') \<Rightarrow> (r # rs, w'')))"

text \<open>
  The script: the policies folder is created, then the metadata folder is listed, if
  it exists (\<open>listing\<close> is \<open>None\<close> when it does not).
\<close>

definition organizer ::
  "(string \<Rightarrow> string) \<Rightarrow> (string \<Rightarrow> io_fault) \<Rightarrow> string list option \<Rightarrow> world
     \<Rightarrow> outcome list \<times> world"
where
  "organizer clock faults listing w =
     (case listing of
        None \<Rightarrow> ([], makedirs policies_folder w)
      | Some names \<Rightarrow> organize_all clock faults names (makedirs policies_folder w))"

section \<open>The classifier's loop over the raw documents\<close>



section \<open>The specification's wording\<close>

text \<open>
  The definitions of this section follow the words of the specification, not the
  code; the theorems below compare them with the functions of the code.
\<close>

text \<open>
  A name occurs case-insensitively as a literal substring of a text: some contiguous
  piece of the text equals the name up to the case of its letters.
\<close>

definition occurs_ci :: "string \<Rightarrow> string \<Rightarrow> bool" where
  "occurs_ci name s =
     (\<exists>before piece after. s = before @ piece @ after \<and> upper piece = upper name)"

definition first_or_unknown :: "string list \<Rightarrow> string" where
  "first_or_unknown xs = (case xs of [] \<Rightarrow> ''Unknown'' | x # _ \<Rightarrow> x)"

text \<open>The ordered list of categories with their keyword sets, most specific first.\<close>

definition LINE_CATEGORIES :: "(string \<times> string list) list" where
  "LINE_CATEGORIES =
     [(''Professional Indemnity'',
         [''professional indemnity'', ''pi insurance'', ''professional liability'',
          ''accountants liability'']),
      (''Farm'', [''farm insurance'', ''agricultural'', ''farming'', ''rural property'']),
      (''Landlord'',
         [''landlord'', ''rental property'', ''investment property'', ''residential landlord'']),
      (''Construction'',
         [''construction'', ''builders indemnity'', ''contract works'', ''building project'']),
      (''Motor'', [''car insurance'', ''motor'', ''vehicle insurance'', ''auto insurance'']),
      (''Life'', [''life insurance'', ''life cover'', ''life protection'']),
      (''Health'', [''health insurance'', ''medical insurance'', ''health cover'']),
      (''Home & Contents'',
         [''home insurance'', ''contents insurance'', ''house insurance'', ''home & contents'']),
      (''Travel'', [''travel insurance'', ''trip insurance'', ''travel cover''])]"

text \<open>A keyword set has a substring match in a text.\<close>

definition matches :: "string list \<Rightarrow> string \<Rightarrow> bool" where
  "matches keywords t = (\<exists>k\<in>set keywords. sublist k t)"

definition first_category :: "(string \<times> string list) list \<Rightarrow> string \<Rightarrow> string" where
  "first_category cats t =
     (case filter (\<lambda>(label, keywords). matches keywords t) cats of
        [] \<Rightarrow> ''Unknown''
      | (label, keywords) # _ \<Rightarrow> label)"

text \<open>A trimmed line qualifies as a product-name candidate.\<close>

definition qualifies :: "string \<Rightarrow> bool" where
  "qualifies l =
     (10 < length l \<and> length l < 100 \<and> \<not> prefix ''www'' l
      \<and> matches [''policy'', ''insurance'', ''wording'', ''cover''] (lower l))"

definition first_or_general :: "string list \<Rightarrow> string" where
  "first_or_general ls = (case ls of [] \<Rightarrow> ''General Policy'' | l # _ \<Rightarrow> l)"

text \<open>The four classification fields of a record, cleaned.\<close>

definition cleaned_fields :: "metadata \<Rightarrow> string list" where
  "cleaned_fields m = map (\<lambda>k. clean_text (get_default m k (Str []))) required_fields"

text \<open>
  The outcomes that leave a record aside before anything is touched: the three
  violations of the admission gate.
\<close>

fun is_skip :: "outcome \<Rightarrow> bool" where
  "is_skip MissingFilename = True"
| "is_skip (SkippedStatus s) = True"
| "is_skip (SkippedUnknown field) = True"
| "is_skip r = False"

text \<open>The status of the record that a file of the metadata folder holds, if it holds one.\<close>

definition status_in :: "world \<Rightarrow> string \<Rightarrow> pyval option" where
  "status_in w name = (case meta w name of Some (Object m) \<Rightarrow> m ''status'' | _ \<Rightarrow> None)"


section \<open>Example runs\<close>

definition fixed_clock :: "string \<Rightarrow> string" where
  "fixed_clock filename = ''2024-05-01''"

definition no_fault :: "string \<Rightarrow> io_fault" where
  "no_fault filename = NoFault"


text \<open>A reviewed record, with every field resolved, for the document \<open>name\<close>.\<close>

definition reviewed_record :: "string \<Rightarrow> metadata" where
  "reviewed_record name =
     [''original_filename'' \<mapsto> Str name,
      ''country'' \<mapsto> Str ''New Zealand'',
      ''insurer'' \<mapsto> Str ''AMI'',
      ''insurance_line'' \<mapsto> Str ''Motor'',
      ''product_name'' \<mapsto> Str ''Car Policy'',
      ''status'' \<mapsto> Str ''classified'']"

text \<open>
  Two documents in the raw-documents folder, with contents 1 and 2, and a reviewed
  record for each; the two records differ in \<open>original_filename\<close> only.
\<close>

definition two_documents :: world where
  "two_documents =
     \<lparr>files = [''raw_documents/a.pdf'' \<mapsto> 1, ''raw_documents/b.pdf'' \<mapsto> 2],
      dirs = {''raw_documents'', ''metadata''},
      meta = [''a.json'' \<mapsto> Object (reviewed_record ''a.pdf''),
              ''b.json'' \<mapsto> Object (reviewed_record ''b.pdf'')]\<rparr>"

text \<open>The same records, with no document in the raw-documents folder.\<close>

definition no_documents :: world where
  "no_documents = two_documents\<lparr>files := Map.empty\<rparr>"

text \<open>A record in review that names no document.\<close>

definition nameless_world :: world where
  "nameless_world =
     \<lparr>files = Map.empty, dirs = {''raw_documents'', ''metadata''},
      meta = [''x.json'' \<mapsto> Object [''status'' \<mapsto> Str ''needs_review'']]\<rparr>"

text \<open>A reviewed record whose product name is unresolved.\<close>

definition unresolved_world :: world where
  "unresolved_world =
     \<lparr>files = [''raw_documents/a.pdf'' \<mapsto> 1], dirs = {''raw_documents'', ''metadata''},
      meta = [''a.json'' \<mapsto> Object ((reviewed_record ''a.pdf'')
                                       (''product_name'' \<mapsto> Str ''Unknown''))]\<rparr>"

section \<open>Facts about strings\<close>

lemma startswith_prefix: "startswith s p = prefix p s"
  by (induction s p rule: startswith.induct) auto

lemma contains_sublist: "contains needle hay = sublist needle hay"
  by (induction hay) (auto simp: startswith_prefix sublist_Cons_right)

lemma any_in_matches: "any_in words t = matches words t"
  by (simp add: any_in_def matches_def list_ex_iff contains_sublist)

lemma map_eq_append_split:
  "map f xs = ys @ zs \<Longrightarrow> \<exists>us vs. xs = us @ vs \<and> map f us = ys \<and> map f vs = zs"
  by (metis append_eq_conv_conj drop_map take_map append_take_drop_id)

lemma contains_upper_iff: "contains (upper name) (upper s) = occurs_ci name s"
proof
  assume "contains (upper name) (upper s)"
  then obtain ps ss where "map upper_char s = ps @ (map upper_char name @ ss)"
    by (auto simp: contains_sublist sublist_def upper_def)
  from map_eq_append_split[OF this]
  obtain b r where s: "s = b @ r" and r: "map upper_char r = map upper_char name @ ss"
    by blast
  from map_eq_append_split[OF r]
  obtain p a where "r = p @ a" and "map upper_char p = map upper_char name"
    by blast
  with s show "occurs_ci name s"
    by (auto simp: occurs_ci_def upper_def)
next
  assume "occurs_ci name s"
  then obtain b p a where "s = b @ p @ a" and "upper p = upper name"
    by (auto simp: occurs_ci_def)
  then have "upper s = upper b @ upper name @ upper a"
    by (simp add: upper_def)
  then show "contains (upper name) (upper s)"
    by (simp add: contains_sublist)
qed

lemma occurs_ci_replicate:
  assumes "occurs_ci name (replicate n c)"
  shows "set (upper name) \<subseteq> {upper_char c}"
proof -
  from assms obtain b p a where r: "replicate n c = b @ p @ a" and u: "upper p = upper name"
    by (auto simp: occurs_ci_def)
  have "set p \<subseteq> set (replicate n c)" unfolding r by auto
  then have "set p \<subseteq> {c}" by auto
  then have "upper_char ` set p \<subseteq> {upper_char c}" by auto
  then show ?thesis using u by (simp add: upper_def flip: set_map)
qed

lemma split_nl_nonempty: "split_nl s \<noteq> []"
  by (induction s) (auto split: list.splits)

lemma take_split_nl_append:
  "n \<le> count_list p (CHR 0x0A) \<Longrightarrow> take n (split_nl (p @ s)) = take n (split_nl p)"
proof (induction p arbitrary: n)
  case Nil
  then show ?case by simp
next
  case (Cons c cs)
  show ?case
  proof (cases n)
    case 0
    then show ?thesis by simp
  next
    case (Suc k)
    show ?thesis
    proof (cases "c = CHR 0x0A")
      case True
      with Cons Suc show ?thesis by simp
    next
      case False
      with Cons.prems have "n \<le> count_list cs (CHR 0x0A)" by simp
      from Cons.IH[OF this] have e: "take n (split_nl (cs @ s)) = take n (split_nl cs)" .
      obtain l ls where a: "split_nl (cs @ s) = l # ls"
        using split_nl_nonempty by (cases "split_nl (cs @ s)") auto
      obtain l' ls' where b: "split_nl cs = l' # ls'"
        using split_nl_nonempty by (cases "split_nl cs") auto
      from e a b Suc have "l = l' \<and> take k ls = take k ls'" by simp
      with a b False Suc show ?thesis by simp
    qed
  qed
qed

section \<open>Facts about the detections\<close>

lemma insurer_loop_filter:
  "insurer_loop ks fs = first_or_unknown (filter (\<lambda>name. contains (upper name) fs) ks)"
  by (induction ks) (auto simp: first_or_unknown_def)

lemma detect_insurer_spec:
  "detect_insurer text =
     first_or_unknown (filter (\<lambda>name. occurs_ci name (take 2000 text)) KNOWN_INSURERS)"
  by (simp add: detect_insurer_def insurer_loop_filter contains_upper_iff)

lemma names_not_blank:
  "\<forall>name\<in>set KNOWN_INSURERS. \<not> set (upper name) \<subseteq> {upper_char (CHR '' '')}"
  by code_simp

lemma detect_line_spec: "detect_line text = first_category LINE_CATEGORIES (lower text)"
  unfolding detect_line_def LINE_CATEGORIES_def first_category_def any_in_matches Let_def
  by simp

lemma qualifies_code:
  "qualifies l = (10 < length l \<and> length l < 100 \<and> \<not> startswith l ''www''
      \<and> any_in [''policy'', ''insurance'', ''wording'', ''cover''] (lower l))"
  unfolding qualifies_def any_in_matches startswith_prefix ..

lemma product_loop_filter:
  "product_loop ls = first_or_general (filter qualifies (map strip ls))"
  by (induction ls) (simp_all add: first_or_general_def qualifies_code)

lemma product_loop_not_unknown: "product_loop ls \<noteq> ''Unknown''"
  by (induction ls) auto

lemma detect_product_name_not_unknown: "detect_product_name text \<noteq> ''Unknown''"
  by (simp add: detect_product_name_def product_loop_not_unknown)

section \<open>Facts about text cleaning and paths\<close>

lemma keep_not_space: "keep_char c \<Longrightarrow> \<not> isspace c"
  by (auto simp: keep_char_def isspace_def Let_def)

lemma keep_not_blank: "keep_char c \<Longrightarrow> c \<noteq> CHR '' ''"
  by (auto simp: keep_char_def Let_def)

lemma strip_keep:
  assumes "\<forall>c\<in>set s. keep_char c"
  shows "strip s = s"
proof -
  have d: "dropWhile isspace xs = xs" if "\<forall>c\<in>set xs. keep_char c" for xs
    using that by (cases xs) (auto dest: keep_not_space)
  show ?thesis using assms by (simp add: strip_def d)
qed

lemma replace_keep: "\<forall>c\<in>set s. keep_char c \<Longrightarrow> replace_spaces s = s"
  by (induction s) (auto simp: replace_spaces_def dest: keep_not_blank)

lemma clean_text_chars: "\<forall>c\<in>set (clean_text v). keep_char c"
  by (simp add: clean_text_def Let_def keep_char_def)

lemma clean_text_nonempty: "clean_text v \<noteq> []"
  by (simp add: clean_text_def Let_def)

lemma clean_text_Unknown: "clean_text (Str ''Unknown'') = ''Unknown''"
  by (simp add: clean_text_def strip_def isspace_def replace_spaces_def keep_char_def)

lemma clean_text_default:
  "clean_text (get_default m k (Str ''Unknown'')) = clean_text (get_default m k (Str []))"
  by (cases "m k") (simp_all add: get_default_def clean_text_Unknown, simp add: clean_text_def)

lemma paths_of_cleaned_fields:
  assumes "cleaned_fields m = cleaned_fields m'"
  shows "build_filename m = build_filename m'" and "folder_path m = folder_path m'"
    and "dst_filepath m = dst_filepath m'"
proof -
  from assms have e:
    "clean_text (get_default m ''country'' (Str [])) = clean_text (get_default m' ''country'' (Str []))"
    "clean_text (get_default m ''insurer'' (Str [])) = clean_text (get_default m' ''insurer'' (Str []))"
    "clean_text (get_default m ''insurance_line'' (Str []))
       = clean_text (get_default m' ''insurance_line'' (Str []))"
    "clean_text (get_default m ''product_name'' (Str []))
       = clean_text (get_default m' ''product_name'' (Str []))"
    by (simp_all add: cleaned_fields_def required_fields_def)
  show b: "build_filename m = build_filename m'"
    by (simp add: build_filename_def clean_text_default e)
  show f: "folder_path m = folder_path m'"
    by (simp add: folder_path_def e)
  show "dst_filepath m = dst_filepath m'"
    by (simp add: dst_filepath_def b f)
qed

section \<open>Facts about the organizer\<close>

lemma unknown_loop_None:
  "(unknown_loop m fs = None) = (\<forall>field\<in>set fs. m field \<noteq> Some (Str ''Unknown''))"
  by (induction fs) auto

lemma files_makedirs: "files (makedirs p w) = files w"
  by (simp add: makedirs_def)

lemma meta_makedirs: "meta (makedirs p w) = meta w"
  by (simp add: makedirs_def)

lemma status_classified:
  "(get_default m ''status'' (Str ''unknown'') = Str ''classified'')
     = (m ''status'' = Some (Str ''classified''))"
  by (cases "m ''status''") (simp_all add: get_default_def)

text \<open>The cases in which the loop body returns the world it was given.\<close>

lemma organize_one_gate:
  assumes "meta w filename = Some (Object m)"
    and "m ''status'' \<noteq> Some (Str ''classified'') \<or> unknown_loop m required_fields \<noteq> None"
  shows "snd (organize_one now fault filename w) = w"
    and "endswith (lower filename) ''.json'' \<Longrightarrow> is_skip (fst (organize_one now fault filename w))"
  using assms
  by (auto simp: organize_one_def Let_def status_classified split: option.splits)

text \<open>
  The loop body changes the metadata folder in one case only: the entry holds a
  record in status classified, no field is unknown, its document is in the
  raw-documents folder, and folder creation, move and open succeed.
\<close>

lemma organize_one_meta:
  "meta (snd (organize_one now fault filename w)) = meta w
   \<or> (\<exists>m name content. meta w filename = Some (Object m)
        \<and> m ''status'' = Some (Str ''classified'')
        \<and> unknown_loop m required_fields = None
        \<and> m ''original_filename'' = Some (Str name) \<and> name \<noteq> []
        \<and> files w (src_filepath name) = Some content
        \<and> files (snd (organize_one now fault filename w)) (dst_filepath m) = Some content
        \<and> fault \<noteq> MkdirFails \<and> fault \<noteq> MoveFails \<and> fault \<noteq> OpenFails
        \<and> meta (snd (organize_one now fault filename w)) =
            (meta w)(filename \<mapsto>
               (if fault = DumpFails then Unreadable
                else Object (m(''generated_filename'' \<mapsto> Str (build_filename m),
                               ''status'' \<mapsto> Str ''organized'',
                               ''organized_date'' \<mapsto> Str now)))))"
  by (auto simp: organize_one_def Let_def status_classified meta_makedirs files_makedirs
           split: option.splits meta_file.splits pyval.splits)

lemma organize_all_invariant:
  assumes step: "\<And>now fault filename w. P w \<Longrightarrow> P (snd (organize_one now fault filename w))"
    and "P w"
  shows "P (snd (organize_all clock faults names w))"
  using \<open>P w\<close>
proof (induction names arbitrary: w)
  case Nil
  then show ?case by simp
next
  case (Cons filename rest)
  obtain r w' where o: "organize_one (clock filename) (faults filename) filename w = (r, w')"
    by (cases "organize_one (clock filename) (faults filename) filename w")
  from step[OF Cons.prems, of "clock filename" "faults filename" filename] o
  have p: "P w'" by simp
  show ?case
  proof (cases "\<exists>e. r = Crashed e")
    case True
    with o p show ?thesis by auto
  next
    case False
    from Cons.IH[OF p] have "P (snd (organize_all clock faults rest w'))" .
    with False o show ?thesis
      by (cases r) (auto split: prod.splits)
  qed
qed

lemma organizer_invariant:
  assumes step: "\<And>now fault filename w. P w \<Longrightarrow> P (snd (organize_one now fault filename w))"
    and mk: "\<And>w. P w \<Longrightarrow> P (makedirs policies_folder w)"
    and "P w"
  shows "P (snd (organizer clock faults listing w))"
proof (cases listing)
  case None
  with mk[OF \<open>P w\<close>] show ?thesis by (simp add: organizer_def)
next
  case (Some names)
  from organize_all_invariant[of P, OF step mk[OF \<open>P w\<close>]]
  show ?thesis using Some by (simp add: organizer_def)
qed

section \<open>Facts about the classifier\<close>

lemma classify_Inr:
  "\<exists>m. classify today created filename text = Inr m
       \<and> m ''status'' = Some (Str ''needs_review'')
       \<and> m ''country'' = Some (Str (detect_country text))
       \<and> m ''insurer'' = Some (Str (detect_insurer text))
       \<and> m ''insurance_line'' = Some (Str (detect_line text))
       \<and> m ''product_name'' = Some (Str (detect_product_name text))
       \<and> m ''confidence'' = Some (Str (if detect_country text \<noteq> ''Unknown''
                                          \<and> detect_insurer text \<noteq> ''Unknown''
                                          \<and> detect_line text \<noteq> ''Unknown''
                                       then ''High'' else ''Medium''))"
  by (simp add: classify_def cm_build_filename_def subscript_def Let_def)







section \<open>The organizer's admission gate\<close>

text \<open>
  C1. A record in which one of the four classification fields (country, insurer,
  insurance_line, product_name) equals "Unknown" is never organized: the loop body
  returns the world unchanged, the record is skipped, and after a whole run of the
  organizer the file still holds the same record, so its status is unchanged.
\<close>

theorem unknown_field_never_organized:
  assumes "meta w filename = Some (Object m)"
    and "\<exists>field\<in>set required_fields. m field = Some (Str ''Unknown'')"
  shows "snd (organize_one now fault filename w) = w
     \<and> (endswith (lower filename) ''.json''
          \<longrightarrow> is_skip (fst (organize_one now fault filename w)))
     \<and> meta (snd (organizer clock faults listing w)) filename = Some (Object m)"
proof -
  from assms(2) have u: "unknown_loop m required_fields \<noteq> None"
    by (simp add: unknown_loop_None)
  have keep: "meta (snd (organize_one n f name v)) filename = Some (Object m)"
    if "meta v filename = Some (Object m)" for n f name v
  proof (cases "name = filename")
    case True
    with organize_one_gate(1)[of v filename m n f] that u show ?thesis by simp
  next
    case False
    with organize_one_meta[of n f name v] that show ?thesis by auto
  qed
  have "meta (snd (organizer clock faults listing w)) filename = Some (Object m)"
    by (rule organizer_invariant[where P = "\<lambda>v. meta v filename = Some (Object m)"])
       (simp_all add: keep meta_makedirs assms(1))
  with organize_one_gate[OF assms(1), of now fault] u show ?thesis by simp
qed

theorem unknown_field_never_organized_witness:
  "meta unresolved_world ''a.json''
     = Some (Object ((reviewed_record ''a.pdf'')(''product_name'' \<mapsto> Str ''Unknown'')))
   \<and> (\<exists>field\<in>set required_fields.
         ((reviewed_record ''a.pdf'')(''product_name'' \<mapsto> Str ''Unknown'')) field
           = Some (Str ''Unknown''))
   \<and> endswith (lower ''a.json'') ''.json''
   \<and> snd (organize_one ''t'' NoFault ''a.json'' unresolved_world) = unresolved_world
   \<and> is_skip (fst (organize_one ''t'' NoFault ''a.json'' unresolved_world))
   \<and> fst (organize_one ''t'' NoFault ''a.json'' unresolved_world) = SkippedUnknown ''product_name''
   \<and> status_in (snd (organizer fixed_clock no_fault (Some [''a.json'']) unresolved_world))
        ''a.json'' = Some (Str ''classified'')"
proof -
  let ?m = "(reviewed_record ''a.pdf'')(''product_name'' \<mapsto> Str ''Unknown'')"
  have h1: "meta unresolved_world ''a.json'' = Some (Object ?m)"
    by (simp add: unresolved_world_def)
  have h2: "\<exists>field\<in>set required_fields. ?m field = Some (Str ''Unknown'')"
    by (simp add: required_fields_def)
  have e: "endswith (lower ''a.json'') ''.json''"
    by code_simp
  have o: "fst (organize_one ''t'' NoFault ''a.json'' unresolved_world)
             = SkippedUnknown ''product_name''"
    by code_simp
  have s: "?m ''status'' = Some (Str ''classified'')"
    by (simp add: reviewed_record_def)
  from unknown_field_never_organized[OF h1 h2, of "''t''" NoFault fixed_clock no_fault
      "Some [''a.json'']"] e h1 h2 o s
  show ?thesis by (simp add: status_in_def)
qed

text \<open>
  C4, as the code has it. A record whose status is not exactly "classified"
  (needs_review, organized, a missing status, any other value) is neither changed
  nor is any file moved: the loop body returns the world unchanged, and after a whole
  run the file still holds the same record. The record is skipped; the reason
  reported is its status when the record has a non-empty original_filename, and the
  missing file name otherwise, since that check comes first.
\<close>

theorem wrong_status_untouched:
  assumes "meta w filename = Some (Object m)"
    and "get_default m ''status'' (Str ''unknown'') \<noteq> Str ''classified''"
  shows "snd (organize_one now fault filename w) = w
     \<and> meta (snd (organizer clock faults listing w)) filename = Some (Object m)
     \<and> (endswith (lower filename) ''.json'' \<longrightarrow>
          fst (organize_one now fault filename w) =
            (if \<exists>v. m ''original_filename'' = Some v \<and> truthy v
             then SkippedStatus (get_default m ''status'' (Str ''unknown''))
             else MissingFilename))"
proof -
  from assms(2) have u: "m ''status'' \<noteq> Some (Str ''classified'')"
    by (simp add: status_classified)
  have keep: "meta (snd (organize_one n f name v)) filename = Some (Object m)"
    if "meta v filename = Some (Object m)" for n f name v
  proof (cases "name = filename")
    case True
    with organize_one_gate(1)[of v filename m n f] that u show ?thesis by simp
  next
    case False
    with organize_one_meta[of n f name v] that show ?thesis by auto
  qed
  have b: "meta (snd (organizer clock faults listing w)) filename = Some (Object m)"
    by (rule organizer_invariant[where P = "\<lambda>v. meta v filename = Some (Object m)"])
       (simp_all add: keep meta_makedirs assms(1))
  have o: "fst (organize_one now fault filename w) =
            (if \<exists>v. m ''original_filename'' = Some v \<and> truthy v
             then SkippedStatus (get_default m ''status'' (Str ''unknown''))
             else MissingFilename)" if "endswith (lower filename) ''.json''"
    using that assms by (auto simp: organize_one_def Let_def split: option.splits)
  from organize_one_gate(1)[OF assms(1), of now fault] u b o show ?thesis by simp
qed

theorem wrong_status_untouched_witness:
  "meta two_documents ''a.json''
     = Some (Object ((reviewed_record ''a.pdf'')))
   \<and> meta (two_documents\<lparr>meta := (meta two_documents)(''a.json'' \<mapsto>
        Object ((reviewed_record ''a.pdf'')(''status'' \<mapsto> Str ''organized'')))\<rparr>) ''a.json''
      = Some (Object ((reviewed_record ''a.pdf'')(''status'' \<mapsto> Str ''organized'')))
   \<and> get_default ((reviewed_record ''a.pdf'')(''status'' \<mapsto> Str ''organized''))
        ''status'' (Str ''unknown'') \<noteq> Str ''classified''
   \<and> endswith (lower ''a.json'') ''.json''
   \<and> fst (organize_one ''t'' NoFault ''a.json''
        (two_documents\<lparr>meta := (meta two_documents)(''a.json'' \<mapsto>
           Object ((reviewed_record ''a.pdf'')(''status'' \<mapsto> Str ''organized'')))\<rparr>))
      = SkippedStatus (Str ''organized'')
   \<and> snd (organize_one ''t'' NoFault ''a.json''
        (two_documents\<lparr>meta := (meta two_documents)(''a.json'' \<mapsto>
           Object ((reviewed_record ''a.pdf'')(''status'' \<mapsto> Str ''organized'')))\<rparr>))
      = two_documents\<lparr>meta := (meta two_documents)(''a.json'' \<mapsto>
           Object ((reviewed_record ''a.pdf'')(''status'' \<mapsto> Str ''organized'')))\<rparr>"
proof -
  let ?m = "(reviewed_record ''a.pdf'')(''status'' \<mapsto> Str ''organized'')"
  let ?w = "two_documents\<lparr>meta := (meta two_documents)(''a.json'' \<mapsto> Object ?m)\<rparr>"
  have h0: "meta two_documents ''a.json'' = Some (Object ((reviewed_record ''a.pdf'')))"
    by (simp add: two_documents_def)
  have h1: "meta ?w ''a.json'' = Some (Object ?m)"
    by simp
  have g: "get_default ?m ''status'' (Str ''unknown'') = Str ''organized''"
    by (simp add: get_default_def)
  then have h2: "get_default ?m ''status'' (Str ''unknown'') \<noteq> Str ''classified''"
    by simp
  have e: "endswith (lower ''a.json'') ''.json''"
    by code_simp
  have n: "\<exists>v. ?m ''original_filename'' = Some v \<and> truthy v"
    by (simp add: reviewed_record_def)
  from wrong_status_untouched[OF h1 h2, of "''t''" NoFault fixed_clock no_fault None] e n g h0 h1 h2
  show ?thesis by simp
qed

text \<open>
  C4 as stated fails: a record in status needs_review that has no
  original_filename is skipped with the missing file name as the reason, not with
  its status.
\<close>

theorem wrong_status_reason_counterexample:
  "status_in nameless_world ''x.json'' = Some (Str ''needs_review'')
   \<and> fst (organize_one ''t'' NoFault ''x.json'' nameless_world) = MissingFilename
   \<and> fst (organize_one ''t'' NoFault ''x.json'' nameless_world)
       \<noteq> SkippedStatus (Str ''needs_review'')"
proof -
  have "status_in nameless_world ''x.json'' = Some (Str ''needs_review'')"
    by (simp add: status_in_def nameless_world_def)
  moreover have "fst (organize_one ''t'' NoFault ''x.json'' nameless_world) = MissingFilename"
    by code_simp
  ultimately show ?thesis by simp
qed

text \<open>
  C3. When a record passes the admission gate (a non-empty original_filename,
  status "classified", no field equal to "Unknown") and its document is not in the
  raw-documents folder, the organizer reports a failure for the record (the source
  is missing, or the folder could not be created) and changes neither the metadata
  folder nor any file, so the status stays "classified" and no field changes. And
  whenever the loop body changes the metadata folder, the document was in the
  raw-documents folder, the move did not fail, and the document's content is at the
  destination path: the record is rewritten only after the move succeeded.
\<close>

theorem missing_source_no_mutation:
  "(endswith (lower filename) ''.json'' \<and> meta w filename = Some (Object m)
      \<and> m ''original_filename'' = Some (Str name) \<and> name \<noteq> []
      \<and> m ''status'' = Some (Str ''classified'')
      \<and> (\<forall>field\<in>set required_fields. m field \<noteq> Some (Str ''Unknown''))
      \<and> files w (src_filepath name) = None
    \<longrightarrow> fst (organize_one now fault filename w)
          = (if fault = MkdirFails then MkdirError else SourceMissing)
        \<and> meta (snd (organize_one now fault filename w)) = meta w
        \<and> files (snd (organize_one now fault filename w)) = files w)
   \<and> (meta (snd (organize_one now fault filename w)) \<noteq> meta w
    \<longrightarrow> fault \<noteq> MoveFails
        \<and> (\<exists>m name content. meta w filename = Some (Object m)
              \<and> m ''original_filename'' = Some (Str name)
              \<and> files w (src_filepath name) = Some content
              \<and> files (snd (organize_one now fault filename w)) (dst_filepath m)
                  = Some content))"
proof (intro conjI impI)
  assume a: "endswith (lower filename) ''.json'' \<and> meta w filename = Some (Object m)
      \<and> m ''original_filename'' = Some (Str name) \<and> name \<noteq> []
      \<and> m ''status'' = Some (Str ''classified'')
      \<and> (\<forall>field\<in>set required_fields. m field \<noteq> Some (Str ''Unknown''))
      \<and> files w (src_filepath name) = None"
  then have u: "unknown_loop m required_fields = None"
    by (simp add: unknown_loop_None)
  have s: "get_default m ''status'' (Str ''unknown'') = Str ''classified''"
    using a by (simp add: status_classified)
  show "fst (organize_one now fault filename w)
          = (if fault = MkdirFails then MkdirError else SourceMissing)"
    using a u s by (simp add: organize_one_def Let_def files_makedirs)
  show "meta (snd (organize_one now fault filename w)) = meta w"
    using a u s by (simp add: organize_one_def Let_def files_makedirs meta_makedirs)
  show "files (snd (organize_one now fault filename w)) = files w"
    using a u s by (simp add: organize_one_def Let_def files_makedirs)
next
  assume "meta (snd (organize_one now fault filename w)) \<noteq> meta w"
  with organize_one_meta[of now fault filename w]
  show "fault \<noteq> MoveFails" by blast
next
  assume "meta (snd (organize_one now fault filename w)) \<noteq> meta w"
  with organize_one_meta[of now fault filename w]
  show "\<exists>m name content. meta w filename = Some (Object m)
              \<and> m ''original_filename'' = Some (Str name)
              \<and> files w (src_filepath name) = Some content
              \<and> files (snd (organize_one now fault filename w)) (dst_filepath m)
                  = Some content" by blast
qed

theorem missing_source_no_mutation_witness:
  "endswith (lower ''a.json'') ''.json''
   \<and> meta no_documents ''a.json'' = Some (Object (reviewed_record ''a.pdf''))
   \<and> reviewed_record ''a.pdf'' ''original_filename'' = Some (Str ''a.pdf'') \<and> ''a.pdf'' \<noteq> []
   \<and> reviewed_record ''a.pdf'' ''status'' = Some (Str ''classified'')
   \<and> unknown_loop (reviewed_record ''a.pdf'') required_fields = None
   \<and> files no_documents (src_filepath ''a.pdf'') = None
   \<and> fst (organize_one ''t'' NoFault ''a.json'' no_documents) = SourceMissing
   \<and> meta (snd (organize_one ''t'' NoFault ''a.json'' no_documents)) = meta no_documents
   \<and> files (snd (organize_one ''t'' NoFault ''a.json'' no_documents)) = files no_documents
   \<and> meta (snd (organize_one ''t'' NoFault ''a.json'' two_documents)) \<noteq> meta two_documents
   \<and> files two_documents (src_filepath ''a.pdf'') = Some 1
   \<and> files (snd (organize_one ''t'' NoFault ''a.json'' two_documents))
        (dst_filepath (reviewed_record ''a.pdf'')) = Some 1"
proof -
  have e: "endswith (lower ''a.json'') ''.json''"
    by code_simp
  have h1: "meta no_documents ''a.json'' = Some (Object (reviewed_record ''a.pdf''))"
    by (simp add: no_documents_def two_documents_def)
  have h2: "reviewed_record ''a.pdf'' ''original_filename'' = Some (Str ''a.pdf'')"
    and h3: "reviewed_record ''a.pdf'' ''status'' = Some (Str ''classified'')"
    and h4: "\<forall>field\<in>set required_fields. reviewed_record ''a.pdf'' field \<noteq> Some (Str ''Unknown'')"
    by (simp_all add: reviewed_record_def required_fields_def)
  have h5: "files no_documents (src_filepath ''a.pdf'') = None"
    by (simp add: no_documents_def)
  have c: "status_in (snd (organize_one ''t'' NoFault ''a.json'' two_documents)) ''a.json''
             = Some (Str ''organized'')"
    and c0: "status_in two_documents ''a.json'' = Some (Str ''classified'')"
    by code_simp+
  have d: "meta (snd (organize_one ''t'' NoFault ''a.json'' two_documents)) \<noteq> meta two_documents"
  proof
    assume "meta (snd (organize_one ''t'' NoFault ''a.json'' two_documents)) = meta two_documents"
    then have "status_in (snd (organize_one ''t'' NoFault ''a.json'' two_documents)) ''a.json''
                 = status_in two_documents ''a.json''"
      by (simp add: status_in_def)
    with c c0 show False by simp
  qed
  have s: "files two_documents (src_filepath ''a.pdf'') = Some 1"
    and t: "files (snd (organize_one ''t'' NoFault ''a.json'' two_documents))
              (dst_filepath (reviewed_record ''a.pdf'')) = Some 1"
    by code_simp+
  from missing_source_no_mutation[of "''a.json''" no_documents "reviewed_record ''a.pdf''"
      "''a.pdf''" "''t''" NoFault] e h1 h2 h3 h4 h5
  have "fst (organize_one ''t'' NoFault ''a.json'' no_documents) = SourceMissing
      \<and> meta (snd (organize_one ''t'' NoFault ''a.json'' no_documents)) = meta no_documents
      \<and> files (snd (organize_one ''t'' NoFault ''a.json'' no_documents)) = files no_documents"
    by simp
  with e h1 h2 h3 h4 h5 d s t show ?thesis by (simp add: unknown_loop_None)
qed

section \<open>The status lifecycle\<close>





section \<open>The detections of the classifier\<close>

text \<open>
  C5. Insurer detection looks at the first 2000 characters only: it returns the first
  entry of the insurer dictionary, in dictionary order, whose name occurs
  case-insensitively as a literal substring of the first 2000 characters of the text,
  and "Unknown" when no entry occurs there. What follows the first 2000 characters
  does not change the result, so a name that appears only after offset 2000 gives
  "Unknown".
\<close>

theorem detect_insurer_first_2000:
  "detect_insurer text =
     first_or_unknown (filter (\<lambda>name. occurs_ci name (take 2000 text)) KNOWN_INSURERS)
   \<and> (2000 \<le> length text \<longrightarrow> detect_insurer (text @ rest) = detect_insurer text)
   \<and> ((\<forall>name\<in>set KNOWN_INSURERS. \<not> occurs_ci name (take 2000 text))
        \<longrightarrow> detect_insurer text = ''Unknown'')"
proof (intro conjI impI)
  show "detect_insurer text =
     first_or_unknown (filter (\<lambda>name. occurs_ci name (take 2000 text)) KNOWN_INSURERS)"
    by (rule detect_insurer_spec)
  show "detect_insurer (text @ rest) = detect_insurer text" if "2000 \<le> length text"
    using that by (simp add: detect_insurer_def)
  show "detect_insurer text = ''Unknown''"
    if "\<forall>name\<in>set KNOWN_INSURERS. \<not> occurs_ci name (take 2000 text)"
  proof -
    have "filter (\<lambda>name. occurs_ci name (take 2000 text)) KNOWN_INSURERS = []"
      using that by (simp add: filter_empty_conv)
    then show ?thesis by (simp add: detect_insurer_spec first_or_unknown_def)
  qed
qed

theorem detect_insurer_first_2000_witness:
  "2000 \<le> length (replicate 2000 (CHR '' ''))
   \<and> filter (\<lambda>name. occurs_ci name (take 2000 (replicate 2000 (CHR '' '')))) KNOWN_INSURERS = []
   \<and> detect_insurer (replicate 2000 (CHR '' '') @ ''AMI'') = ''Unknown''
   \<and> detect_insurer ''Tower house, an ami policy'' = ''AMI''
   \<and> first_or_unknown (filter (\<lambda>name. occurs_ci name (take 2000 ''Tower house, an ami policy''))
        KNOWN_INSURERS) = ''AMI''"
proof -
  let ?blank = "replicate 2000 (CHR '' '')"
  have l: "2000 \<le> length ?blank" by simp
  have n: "\<forall>name\<in>set KNOWN_INSURERS. \<not> occurs_ci name (take 2000 ?blank)"
  proof
    fix name assume "name \<in> set KNOWN_INSURERS"
    with names_not_blank have "\<not> set (upper name) \<subseteq> {upper_char (CHR '' '')}" by blast
    with occurs_ci_replicate[of name 2000 "CHR '' ''"]
    show "\<not> occurs_ci name (take 2000 ?blank)" by auto
  qed
  have a: "detect_insurer ''Tower house, an ami policy'' = ''AMI''"
    by code_simp
  from detect_insurer_first_2000[of ?blank "''AMI''"] l n
  have "detect_insurer (?blank @ ''AMI'') = detect_insurer ?blank"
    and "detect_insurer ?blank = ''Unknown''" by blast+
  then have u: "detect_insurer (?blank @ ''AMI'') = ''Unknown''" by simp
  from detect_insurer_first_2000[of "''Tower house, an ami policy''"]
  have "detect_insurer ''Tower house, an ami policy'' =
     first_or_unknown (filter (\<lambda>name. occurs_ci name (take 2000 ''Tower house, an ami policy''))
        KNOWN_INSURERS)" by blast
  with a have "first_or_unknown (filter (\<lambda>name. occurs_ci name
        (take 2000 ''Tower house, an ami policy'')) KNOWN_INSURERS) = ''AMI''" by simp
  moreover from n
  have "filter (\<lambda>name. occurs_ci name (take 2000 ?blank)) KNOWN_INSURERS = []"
    by (simp add: filter_empty_conv)
  ultimately show ?thesis using u l a by blast
qed

text \<open>
  C6. Insurance-line detection is an ordered first match over the lower-cased full
  text: it returns the first category, in the order of the list (most specific
  first), one of whose keywords is a substring of the lower-cased text, and "Unknown"
  when no category matches. So a text that has a keyword of "Professional Indemnity"
  and a keyword of "Motor" is classified as "Professional Indemnity".
\<close>

theorem detect_line_first_match:
  "detect_line text = first_category LINE_CATEGORIES (lower text)
   \<and> (matches [''professional indemnity'', ''pi insurance'', ''professional liability'',
                ''accountants liability''] (lower text)
        \<and> matches [''car insurance'', ''motor'', ''vehicle insurance'', ''auto insurance'']
             (lower text)
        \<longrightarrow> detect_line text = ''Professional Indemnity'')"
proof (intro conjI impI)
  show "detect_line text = first_category LINE_CATEGORIES (lower text)"
    by (rule detect_line_spec)
next
  assume "matches [''professional indemnity'', ''pi insurance'', ''professional liability'',
                ''accountants liability''] (lower text)
        \<and> matches [''car insurance'', ''motor'', ''vehicle insurance'', ''auto insurance'']
             (lower text)"
  then show "detect_line text = ''Professional Indemnity''"
    by (simp add: detect_line_def any_in_matches)
qed

theorem detect_line_first_match_witness:
  "matches [''professional indemnity'', ''pi insurance'', ''professional liability'',
            ''accountants liability''] (lower ''Motor fleet with Professional Indemnity'')
   \<and> matches [''car insurance'', ''motor'', ''vehicle insurance'', ''auto insurance'']
       (lower ''Motor fleet with Professional Indemnity'')
   \<and> detect_line ''Motor fleet with Professional Indemnity'' = ''Professional Indemnity''
   \<and> first_category LINE_CATEGORIES (lower ''Motor fleet with Professional Indemnity'')
       = ''Professional Indemnity''
   \<and> detect_line ''A motor policy'' = ''Motor''
   \<and> detect_line ''Pet cover'' = ''Unknown''"
proof -
  let ?t = "''Motor fleet with Professional Indemnity''"
  have p: "matches [''professional indemnity'', ''pi insurance'', ''professional liability'',
            ''accountants liability''] (lower ?t)"
    unfolding any_in_matches[symmetric] by code_simp
  have m: "matches [''car insurance'', ''motor'', ''vehicle insurance'', ''auto insurance'']
            (lower ?t)"
    unfolding any_in_matches[symmetric] by code_simp
  have o: "detect_line ''A motor policy'' = ''Motor''" "detect_line ''Pet cover'' = ''Unknown''"
    by code_simp+
  from detect_line_first_match[of ?t] p m
  have 1: "detect_line ?t = first_category LINE_CATEGORIES (lower ?t)"
    and 2: "detect_line ?t = ''Professional Indemnity''" by blast+
  from 1 2 have "first_category LINE_CATEGORIES (lower ?t) = ''Professional Indemnity''"
    by simp
  with 2 p m o show ?thesis by blast
qed

text \<open>
  C7. Product-name detection looks at the first 30 lines only: it returns, trimmed,
  the first of them whose trimmed form is more than 10 and fewer than 100 characters
  long, does not start with "www", and contains, lower-cased, one of the keywords
  policy, insurance, wording, cover; when no line qualifies it returns
  "General Policy". What follows the thirtieth line break does not change the
  result, and the result is never "Unknown".
\<close>

theorem detect_product_name_first_30_lines:
  "detect_product_name text =
     first_or_general (filter qualifies (map strip (take 30 (split_nl text))))
   \<and> (30 \<le> count_list text (CHR 0x0A)
        \<longrightarrow> detect_product_name (text @ rest) = detect_product_name text)
   \<and> detect_product_name text \<noteq> ''Unknown''"
  by (simp add: detect_product_name_def take_split_nl_append product_loop_not_unknown
        flip: product_loop_filter)

theorem detect_product_name_first_30_lines_witness:
  "30 \<le> count_list (replicate 30 (CHR 0x0A)) (CHR 0x0A)
   \<and> detect_product_name (replicate 30 (CHR 0x0A) @ ''Motor Insurance Policy'') = ''General Policy''
   \<and> detect_product_name (''www.insurance.example'' @ [CHR 0x0A] @ ''  Motor Insurance Policy  '')
       = ''Motor Insurance Policy''
   \<and> first_or_general (filter qualifies (map strip (take 30 (split_nl
        (''www.insurance.example'' @ [CHR 0x0A] @ ''  Motor Insurance Policy  '')))))
       = ''Motor Insurance Policy''"
proof -
  let ?b = "replicate 30 (CHR 0x0A)"
  let ?t = "''www.insurance.example'' @ [CHR 0x0A] @ ''  Motor Insurance Policy  ''"
  have c: "30 \<le> count_list ?b (CHR 0x0A)" by code_simp
  have g: "detect_product_name ?b = ''General Policy''" by code_simp
  have p: "detect_product_name ?t = ''Motor Insurance Policy''" by code_simp
  from detect_product_name_first_30_lines[of ?b "''Motor Insurance Policy''"] c
  have "detect_product_name (?b @ ''Motor Insurance Policy'') = detect_product_name ?b"
    by blast
  with g have "detect_product_name (?b @ ''Motor Insurance Policy'') = ''General Policy''"
    by simp
  moreover from detect_product_name_first_30_lines[of ?t]
  have "detect_product_name ?t
          = first_or_general (filter qualifies (map strip (take 30 (split_nl ?t))))" by blast
  with p have "first_or_general (filter qualifies (map strip (take 30 (split_nl ?t))))
          = ''Motor Insurance Policy''" by simp
  ultimately show ?thesis using c p by blast
qed

section \<open>Text cleaning and the file name\<close>

text \<open>
  C8. Text cleaning is idempotent: cleaning the result of cleaning gives the same
  result. On a string it trims the surrounding whitespace, replaces spaces by
  underscores, removes every character that is not a letter, a digit, an underscore
  or a hyphen, and gives "Unknown" when nothing is left (so also for the empty
  string); a value that is missing or false gives "Unknown" as well. The file name
  built from a record is a function of its four classification fields: records that
  agree on them get the same file name, and cleaning the fields beforehand does not
  change it.
\<close>

theorem clean_text_idempotent:
  "clean_text (Str (clean_text v)) = clean_text v
   \<and> clean_text (Str x) =
       (if filter keep_char (replace_spaces (strip x)) = [] then ''Unknown''
        else filter keep_char (replace_spaces (strip x)))
   \<and> clean_text (NonStr False x) = ''Unknown''
   \<and> (m k = None \<longrightarrow> clean_text (get_default m k (Str ''Unknown'')) = ''Unknown'')
   \<and> ((\<forall>k\<in>set required_fields. m k = m' k) \<longrightarrow> build_filename m = build_filename m')
   \<and> build_filename
        [''country'' \<mapsto> Str (clean_text (get_default m ''country'' (Str ''Unknown''))),
         ''insurer'' \<mapsto> Str (clean_text (get_default m ''insurer'' (Str ''Unknown''))),
         ''insurance_line'' \<mapsto> Str (clean_text (get_default m ''insurance_line'' (Str ''Unknown''))),
         ''product_name'' \<mapsto> Str (clean_text (get_default m ''product_name'' (Str ''Unknown'')))]
       = build_filename m"
proof -
  have idem: "clean_text (Str (clean_text u)) = clean_text u" for u
  proof -
    let ?s = "clean_text u"
    have k: "\<forall>c\<in>set ?s. keep_char c" by (rule clean_text_chars)
    have ne: "?s \<noteq> []" by (rule clean_text_nonempty)
    have "filter keep_char ?s = ?s" using k by simp
    then show ?thesis using ne
      by (simp add: clean_text_def[of "Str ?s"] strip_keep[OF k] replace_keep[OF k] Let_def)
  qed
  have str: "clean_text (Str x) =
       (if filter keep_char (replace_spaces (strip x)) = [] then ''Unknown''
        else filter keep_char (replace_spaces (strip x)))"
    by (cases x) (simp_all add: clean_text_def Let_def strip_def replace_spaces_def)
  have non: "clean_text (NonStr False x) = ''Unknown''"
    by (simp add: clean_text_def)
  have missing: "clean_text (get_default m k (Str ''Unknown'')) = ''Unknown''" if "m k = None"
    using that by (simp add: get_default_def clean_text_Unknown)
  have same: "build_filename m = build_filename m'" if "\<forall>k\<in>set required_fields. m k = m' k"
    using that by (simp add: build_filename_def required_fields_def get_default_def)
  have cleaned: "build_filename
        [''country'' \<mapsto> Str (clean_text (get_default m ''country'' (Str ''Unknown''))),
         ''insurer'' \<mapsto> Str (clean_text (get_default m ''insurer'' (Str ''Unknown''))),
         ''insurance_line'' \<mapsto> Str (clean_text (get_default m ''insurance_line'' (Str ''Unknown''))),
         ''product_name'' \<mapsto> Str (clean_text (get_default m ''product_name'' (Str ''Unknown'')))]
       = build_filename m"
    by (simp add: build_filename_def get_default_def[of "_(_ \<mapsto> _)"] idem)
  from idem str non missing same cleaned show ?thesis by blast
qed

theorem clean_text_idempotent_witness:
  "clean_text (Str '' New Zealand (NZ)! '') = ''New_Zealand_NZ''
   \<and> clean_text (Str (clean_text (Str '' New Zealand (NZ)! ''))) = ''New_Zealand_NZ''
   \<and> (Map.empty :: metadata) ''country'' = None
   \<and> clean_text (get_default Map.empty ''country'' (Str ''Unknown'')) = ''Unknown''
   \<and> map (reviewed_record ''a.pdf'') required_fields = map (reviewed_record ''b.pdf'') required_fields
   \<and> build_filename (reviewed_record ''a.pdf'') = build_filename (reviewed_record ''b.pdf'')
   \<and> build_filename (reviewed_record ''b.pdf'') = ''New_Zealand_AMI_Motor_Car_Policy.pdf''"
proof -
  let ?x = "'' New Zealand (NZ)! ''"
  have c: "clean_text (Str ?x) = ''New_Zealand_NZ''"
    by code_simp
  have b: "build_filename (reviewed_record ''b.pdf'') = ''New_Zealand_AMI_Motor_Car_Policy.pdf''"
    by code_simp
  have h: "\<forall>k\<in>set required_fields. reviewed_record ''a.pdf'' k = reviewed_record ''b.pdf'' k"
    by (simp add: required_fields_def reviewed_record_def)
  have e: "(Map.empty :: metadata) ''country'' = None"
    by simp
  from clean_text_idempotent[of "Str ?x" _ Map.empty "''country''"] e
  have "clean_text (Str (clean_text (Str ?x))) = clean_text (Str ?x)"
    and 2: "clean_text (get_default Map.empty ''country'' (Str ''Unknown'')) = ''Unknown''"
    by blast+
  with c have 1: "clean_text (Str (clean_text (Str ?x))) = ''New_Zealand_NZ''"
    by simp
  from clean_text_idempotent[of _ _ "reviewed_record ''a.pdf''" _ "reviewed_record ''b.pdf''"] h
  have "build_filename (reviewed_record ''a.pdf'') = build_filename (reviewed_record ''b.pdf'')"
    by blast
  moreover from h
  have "map (reviewed_record ''a.pdf'') required_fields
          = map (reviewed_record ''b.pdf'') required_fields" by simp
  ultimately show ?thesis using c b e 1 2 by blast
qed

section \<open>Confidence\<close>

text \<open>
  C9. The classifier always builds a record, and sets its confidence to "High"
  exactly when country, insurer and insurance_line are all different from "Unknown",
  and to "Medium" otherwise; product_name is not looked at. Since the product name
  of such a record is never "Unknown", this is the same as all four classification
  fields being different from "Unknown".
\<close>

theorem confidence_high_iff_resolved:
  "\<exists>m. classify today created filename text = Inr m
     \<and> (m ''confidence'' = Some (Str ''High'')) =
         (m ''country'' \<noteq> Some (Str ''Unknown'') \<and> m ''insurer'' \<noteq> Some (Str ''Unknown'')
          \<and> m ''insurance_line'' \<noteq> Some (Str ''Unknown''))
     \<and> (m ''confidence'' = Some (Str ''Medium'')) =
         (\<not> (m ''country'' \<noteq> Some (Str ''Unknown'') \<and> m ''insurer'' \<noteq> Some (Str ''Unknown'')
             \<and> m ''insurance_line'' \<noteq> Some (Str ''Unknown'')))
     \<and> m ''product_name'' \<noteq> Some (Str ''Unknown'')
     \<and> (m ''confidence'' = Some (Str ''High'')) =
         (\<forall>field\<in>set required_fields. m field \<noteq> Some (Str ''Unknown''))"
proof -
  from classify_Inr[of today created filename "text"]
  obtain m where m: "classify today created filename text = Inr m"
    "m ''country'' = Some (Str (detect_country text))"
    "m ''insurer'' = Some (Str (detect_insurer text))"
    "m ''insurance_line'' = Some (Str (detect_line text))"
    "m ''product_name'' = Some (Str (detect_product_name text))"
    "m ''confidence'' = Some (Str (if detect_country text \<noteq> ''Unknown''
                                          \<and> detect_insurer text \<noteq> ''Unknown''
                                          \<and> detect_line text \<noteq> ''Unknown''
                                       then ''High'' else ''Medium''))"
    by blast
  have p: "m ''product_name'' \<noteq> Some (Str ''Unknown'')"
    using m detect_product_name_not_unknown[of "text"] by simp
  have h: "(m ''confidence'' = Some (Str ''High'')) =
         (m ''country'' \<noteq> Some (Str ''Unknown'') \<and> m ''insurer'' \<noteq> Some (Str ''Unknown'')
          \<and> m ''insurance_line'' \<noteq> Some (Str ''Unknown''))"
    using m by simp
  have md: "(m ''confidence'' = Some (Str ''Medium'')) =
         (\<not> (m ''country'' \<noteq> Some (Str ''Unknown'') \<and> m ''insurer'' \<noteq> Some (Str ''Unknown'')
             \<and> m ''insurance_line'' \<noteq> Some (Str ''Unknown'')))"
    using m by simp
  have a: "(m ''confidence'' = Some (Str ''High'')) =
         (\<forall>field\<in>set required_fields. m field \<noteq> Some (Str ''Unknown''))"
    using h p by (simp add: required_fields_def)
  from m h md p a show ?thesis by blast
qed

theorem confidence_high_iff_resolved_witness:
  "(\<exists>m. classify ''2024-05-01'' ''2024-05-01'' ''a.pdf'' ''AMI Motor Policy, NZ '' = Inr m
        \<and> m ''confidence'' = Some (Str ''High'')
        \<and> m ''country'' = Some (Str ''New Zealand'')
        \<and> m ''insurer'' = Some (Str ''AMI'')
        \<and> m ''insurance_line'' = Some (Str ''Motor'')
        \<and> unknown_loop m required_fields = None)
   \<and> (\<exists>m. classify ''2024-05-01'' ''2024-05-01'' ''a.pdf'' ''Motor Policy'' = Inr m
        \<and> m ''confidence'' = Some (Str ''Medium'')
        \<and> m ''country'' = Some (Str ''Unknown'')
        \<and> unknown_loop m required_fields = Some ''country'')"
proof -
  let ?nz = "''AMI Motor Policy, NZ ''" and ?no = "''Motor Policy''"
  have d: "detect_country ?nz = ''New Zealand''" "detect_insurer ?nz = ''AMI''"
    "detect_line ?nz = ''Motor''" "detect_country ?no = ''Unknown''"
    by code_simp+
  from classify_Inr[of "''2024-05-01''" "''2024-05-01''" "''a.pdf''" ?nz] d
  obtain m0 where m0: "classify ''2024-05-01'' ''2024-05-01'' ''a.pdf'' ?nz = Inr m0"
    "m0 ''country'' = Some (Str ''New Zealand'')" "m0 ''insurer'' = Some (Str ''AMI'')"
    "m0 ''insurance_line'' = Some (Str ''Motor'')"
    by auto
  from confidence_high_iff_resolved[of "''2024-05-01''" "''2024-05-01''" "''a.pdf''" ?nz]
  obtain m where m: "classify ''2024-05-01'' ''2024-05-01'' ''a.pdf'' ?nz = Inr m"
    and mh: "(m ''confidence'' = Some (Str ''High'')) =
         (m ''country'' \<noteq> Some (Str ''Unknown'') \<and> m ''insurer'' \<noteq> Some (Str ''Unknown'')
          \<and> m ''insurance_line'' \<noteq> Some (Str ''Unknown''))"
    and ma: "(m ''confidence'' = Some (Str ''High'')) =
         (\<forall>field\<in>set required_fields. m field \<noteq> Some (Str ''Unknown''))"
    by blast
  from m m0 have same: "m = m0" by simp
  with m0 mh have high: "m ''confidence'' = Some (Str ''High'')" by simp
  with ma have "unknown_loop m required_fields = None" by (simp add: unknown_loop_None)
  with m m0 same high
  have 1: "\<exists>m. classify ''2024-05-01'' ''2024-05-01'' ''a.pdf'' ?nz = Inr m
        \<and> m ''confidence'' = Some (Str ''High'')
        \<and> m ''country'' = Some (Str ''New Zealand'')
        \<and> m ''insurer'' = Some (Str ''AMI'')
        \<and> m ''insurance_line'' = Some (Str ''Motor'')
        \<and> unknown_loop m required_fields = None"
    by blast
  from classify_Inr[of "''2024-05-01''" "''2024-05-01''" "''a.pdf''" ?no] d
  obtain r0 where r0: "classify ''2024-05-01'' ''2024-05-01'' ''a.pdf'' ?no = Inr r0"
    "r0 ''country'' = Some (Str ''Unknown'')"
    by auto
  from confidence_high_iff_resolved[of "''2024-05-01''" "''2024-05-01''" "''a.pdf''" ?no]
  obtain r where r: "classify ''2024-05-01'' ''2024-05-01'' ''a.pdf'' ?no = Inr r"
    and rh: "(r ''confidence'' = Some (Str ''High'')) =
         (r ''country'' \<noteq> Some (Str ''Unknown'') \<and> r ''insurer'' \<noteq> Some (Str ''Unknown'')
          \<and> r ''insurance_line'' \<noteq> Some (Str ''Unknown''))"
    and rm: "(r ''confidence'' = Some (Str ''Medium'')) =
         (\<not> (r ''country'' \<noteq> Some (Str ''Unknown'') \<and> r ''insurer'' \<noteq> Some (Str ''Unknown'')
             \<and> r ''insurance_line'' \<noteq> Some (Str ''Unknown'')))"
    by blast
  from r r0 have "r = r0" by simp
  with r0 rm have med: "r ''confidence'' = Some (Str ''Medium'')"
    and c: "r ''country'' = Some (Str ''Unknown'')" by simp_all
  from c have "unknown_loop r required_fields = Some ''country''"
    by (simp add: required_fields_def)
  with r med c
  have 2: "\<exists>m. classify ''2024-05-01'' ''2024-05-01'' ''a.pdf'' ?no = Inr m
        \<and> m ''confidence'' = Some (Str ''Medium'')
        \<and> m ''country'' = Some (Str ''Unknown'')
        \<and> unknown_loop m required_fields = Some ''country''"
    by blast
  from 1 2 show ?thesis by blast
qed

section \<open>Destinations\<close>

text \<open>
  C10. The generated file name and the destination path that the organizer computes
  depend on the four cleaned classification fields only, and not on
  original_filename. So there are two admitted records with different
  original_filename and equal cleaned fields (the reviewed records of a.pdf and b.pdf)
  for which both organize operations succeed with the same destination path, and the
  second move replaces the file that the first one put there: after the first the
  destination holds the content of a.pdf, after the second the content of b.pdf.
\<close>

theorem same_fields_same_destination:
  "(cleaned_fields m = cleaned_fields m'
      \<longrightarrow> build_filename m = build_filename m' \<and> dst_filepath m = dst_filepath m')
   \<and> dst_filepath (m(''original_filename'' := v)) = dst_filepath m
   \<and> reviewed_record ''a.pdf'' ''original_filename'' \<noteq> reviewed_record ''b.pdf'' ''original_filename''
   \<and> cleaned_fields (reviewed_record ''a.pdf'') = cleaned_fields (reviewed_record ''b.pdf'')
   \<and> dst_filepath (reviewed_record ''a.pdf'')
       = ''policies/New_Zealand/AMI/Motor/Car_Policy/New_Zealand_AMI_Motor_Car_Policy.pdf''
   \<and> dst_filepath (reviewed_record ''b.pdf'') = dst_filepath (reviewed_record ''a.pdf'')
   \<and> fst (organize_all fixed_clock no_fault [''a.json'', ''b.json''] two_documents)
       = [Organized ''New_Zealand_AMI_Motor_Car_Policy.pdf'',
          Organized ''New_Zealand_AMI_Motor_Car_Policy.pdf'']
   \<and> files (snd (organize_all fixed_clock no_fault [''a.json''] two_documents))
        (dst_filepath (reviewed_record ''a.pdf'')) = Some 1
   \<and> files (snd (organize_all fixed_clock no_fault [''a.json'', ''b.json''] two_documents))
        (dst_filepath (reviewed_record ''a.pdf'')) = Some 2"
proof -
  have g: "build_filename m = build_filename m' \<and> dst_filepath m = dst_filepath m'"
    if "cleaned_fields m = cleaned_fields m'"
    using paths_of_cleaned_fields[OF that] by simp
  have "cleaned_fields (m(''original_filename'' := v)) = cleaned_fields m"
    by (simp add: cleaned_fields_def required_fields_def get_default_def)
  then have o: "dst_filepath (m(''original_filename'' := v)) = dst_filepath m"
    by (rule paths_of_cleaned_fields)
  have d: "reviewed_record ''a.pdf'' ''original_filename''
             \<noteq> reviewed_record ''b.pdf'' ''original_filename''"
    by (simp add: reviewed_record_def)
  have c: "cleaned_fields (reviewed_record ''a.pdf'') = cleaned_fields (reviewed_record ''b.pdf'')"
    by code_simp
  have p: "dst_filepath (reviewed_record ''a.pdf'')
       = ''policies/New_Zealand/AMI/Motor/Car_Policy/New_Zealand_AMI_Motor_Car_Policy.pdf''"
    by code_simp
  have q: "dst_filepath (reviewed_record ''b.pdf'') = dst_filepath (reviewed_record ''a.pdf'')"
    by code_simp
  have r: "fst (organize_all fixed_clock no_fault [''a.json'', ''b.json''] two_documents)
       = [Organized ''New_Zealand_AMI_Motor_Car_Policy.pdf'',
          Organized ''New_Zealand_AMI_Motor_Car_Policy.pdf'']"
    by code_simp
  have s: "files (snd (organize_all fixed_clock no_fault [''a.json''] two_documents))
        (dst_filepath (reviewed_record ''a.pdf'')) = Some 1"
    by code_simp
  have t: "files (snd (organize_all fixed_clock no_fault [''a.json'', ''b.json''] two_documents))
        (dst_filepath (reviewed_record ''a.pdf'')) = Some 2"
    by code_simp
  from g o d c p q r s t show ?thesis by blast
qed

theorem same_fields_same_destination_witness:
  "cleaned_fields (reviewed_record ''a.pdf'')
     = cleaned_fields ((reviewed_record ''b.pdf'')(''country'' \<mapsto> Str '' New Zealand! ''))
   \<and> build_filename ((reviewed_record ''b.pdf'')(''country'' \<mapsto> Str '' New Zealand! ''))
       = build_filename (reviewed_record ''a.pdf'')
   \<and> dst_filepath ((reviewed_record ''b.pdf'')(''country'' \<mapsto> Str '' New Zealand! ''))
       = ''policies/New_Zealand/AMI/Motor/Car_Policy/New_Zealand_AMI_Motor_Car_Policy.pdf''"
proof -
  let ?m = "reviewed_record ''a.pdf''"
  let ?m' = "(reviewed_record ''b.pdf'')(''country'' \<mapsto> Str '' New Zealand! '')"
  have h: "cleaned_fields ?m = cleaned_fields ?m'"
    by code_simp
  from same_fields_same_destination[of ?m ?m'] h
  have "build_filename ?m = build_filename ?m'" and "dst_filepath ?m = dst_filepath ?m'"
    and "dst_filepath ?m
       = ''policies/New_Zealand/AMI/Motor/Car_Policy/New_Zealand_AMI_Motor_Car_Policy.pdf''"
    by blast+
  with h show ?thesis by simp
qed

end
